theory Spec2Isabelle
  imports Main
begin

section \<open>The core interface of tp_control: channels, handles and signals\<close>

text \<open>
  The registry \<open>CoreInterface\<close> keeps a two-level table from a type key and a name key to a
  \<open>CoreInterfaceHandle\<close>; each handle points to a heap object \<open>CoreInterfacePayloadPrivate\<close>
  that owns the channel's current \<open>CoreInterfaceData\<close>. The functions below follow
  \<^verbatim>\<open>CoreInterface.cpp\<close>: the handle functions, \<open>handle\<close> and \<open>setChannelData\<close> in their latest
  revision (the one with \<open>isValid\<close>), the listener registration and \<open>sendSignal\<close> in the
  revision where the registry keeps its listener vectors itself.

  Pointers are addresses. The payload objects are only ever allocated by \<open>handle\<close> and only
  freed by the destructor of the registry, so the heap of payload objects is an arena: a
  list indexed by address, \<open>new\<close> appending to it. A \<open>CoreInterfaceData*\<close> is an address or
  \<open>nullptr\<close> (\<open>None\<close>); the data objects themselves are opaque. What the code does to the
  outside world - calling a listener, deleting a data object - is recorded, in order, in
  the field \<open>trace\<close>. The bodies of the listeners are not part of the code: the model takes
  them to return without calling back into the registry. The destructor of the registry is
  not modelled: every property below is about a registry that is alive.

  \<open>checkThread\<close> is an \<open>assert\<close>: a call from another thread than the constructing one aborts,
  which is the error \<open>AssertionFailed\<close>.
\<close>

subsection \<open>Collaborators from tp_utils\<close>

text \<open>
  Modelled from the spec: \<open>tp_utils::StringID\<close>, the interned key, is declared outside this
  repository. The spec: an interned string with a validity flag; two keys are equal iff
  their source strings are equal; the invalid key is the empty or unset one. So a key is
  its string, built from a string by the (implicit) constructor and read back by
  \<open>toString\<close>, and the default-constructed key is the empty string.
\<close>

datatype StringID = StringID (toString: string)

definition StringID_isValid :: "StringID \<Rightarrow> bool" where
  "StringID_isValid k = (toString k \<noteq> [])"

definition StringID_default :: StringID where
  "StringID_default = StringID []"

text \<open>
  Modelled from the spec: the structured document of \<open>json.hpp\<close> and \<open>TPJSONString\<close> of
  \<open>tp_utils/JSONUtils.h\<close> are declared outside this repository. A document is an object,
  a finite table from member names to values; \<open>TPJSONString\<close> reads the string stored
  under a name and is the empty string when there is none.
\<close>

datatype json_value = JString string | JNumber int | JNull

type_synonym json = "string \<rightharpoonup> json_value"

definition TPJSONString :: "json \<Rightarrow> string \<Rightarrow> string" where
  "TPJSONString j key = (case j key of Some (JString s) \<Rightarrow> s | _ \<Rightarrow> [])"

subsection \<open>Data model\<close>

type_synonym thread_id = nat
type_synonym callback = nat
type_synonym data_ptr = "nat option"
type_synonym payload_ptr = "nat option"

record CoreInterfacePayloadPrivate =
  data :: data_ptr

definition CoreInterfacePayloadPrivate_new :: CoreInterfacePayloadPrivate where
  "CoreInterfacePayloadPrivate_new = \<lparr>data = None\<rparr>"

record CoreInterfaceHandle =
  m_payload :: payload_ptr
  m_typeID :: StringID
  m_nameID :: StringID

definition CoreInterfaceHandle_default :: CoreInterfaceHandle where
  "CoreInterfaceHandle_default =
     \<lparr>m_payload = None, m_typeID = StringID_default, m_nameID = StringID_default\<rparr>"

datatype event =
    ChannelListChangedCall callback
  | ChannelChangedCall callback StringID StringID data_ptr
  | SignalCall callback StringID data_ptr
  | DeleteData nat

datatype error = AssertionFailed | InvalidPointer

type_synonym channel_map = "StringID \<rightharpoonup> (StringID \<rightharpoonup> CoreInterfaceHandle)"

record CoreInterface =
  ownerThread :: thread_id
  channels :: channel_map
  channelChangeCallbacks :: "callback list"
  channelListChangedCallbacks :: "callback list"
  signalCallbacks :: "StringID \<rightharpoonup> callback list"
  payloads :: "CoreInterfacePayloadPrivate list"
  trace :: "event list"

subsection \<open>Handles\<close>

definition is_handle :: "CoreInterfaceHandle \<Rightarrow> StringID \<Rightarrow> StringID \<Rightarrow> bool" where
  "is_handle h typeID nameID = (m_typeID h = typeID \<and> m_nameID h = nameID)"

definition isValid :: "CoreInterfaceHandle \<Rightarrow> bool" where
  "isValid h = (StringID_isValid (m_typeID h) \<and> StringID_isValid (m_nameID h))"

definition handle_typeID :: "CoreInterfaceHandle \<Rightarrow> StringID" where
  "handle_typeID h = m_typeID h"

definition handle_nameID :: "CoreInterfaceHandle \<Rightarrow> StringID" where
  "handle_nameID h = m_nameID h"

definition handle_eq :: "CoreInterfaceHandle \<Rightarrow> CoreInterfaceHandle \<Rightarrow> bool" where
  "handle_eq h other = (m_payload h = m_payload other)"

text \<open>
  \<open>data()\<close> reads the payload object the handle points to. A pointer that this registry
  never allocated cannot be read in the arena; in C++ that read is undefined, here it is
  the error \<open>InvalidPointer\<close>.
\<close>

definition handle_data :: "CoreInterfaceHandle \<Rightarrow> CoreInterface \<Rightarrow> error + data_ptr" where
  "handle_data h d =
     (case m_payload h of
        None \<Rightarrow> Inr None
      | Some p \<Rightarrow> if p < length (payloads d) then Inr (data (payloads d ! p))
                  else Inl InvalidPointer)"

definition saveState :: "CoreInterfaceHandle \<Rightarrow> json" where
  "saveState h =
     [''typeID'' \<mapsto> JString (toString (m_typeID h)),
      ''nameID'' \<mapsto> JString (toString (m_nameID h))]"

subsection \<open>The registry\<close>

definition CoreInterface_new :: "thread_id \<Rightarrow> CoreInterface" where
  "CoreInterface_new th =
     \<lparr>ownerThread = th, channels = Map.empty, channelChangeCallbacks = [],
      channelListChangedCallbacks = [], signalCallbacks = Map.empty, payloads = [],
      trace = []\<rparr>"

definition checkThread :: "CoreInterface \<Rightarrow> thread_id \<Rightarrow> bool" where
  "checkThread d caller = (ownerThread d = caller)"

text \<open>\<open>delete\<close> of a data pointer; deleting \<open>nullptr\<close> does nothing.\<close>

definition delete_data :: "data_ptr \<Rightarrow> event list" where
  "delete_data p = (case p of None \<Rightarrow> [] | Some a \<Rightarrow> [DeleteData a])"

text \<open>
  The two-level table \<open>channels\<close>. \<open>lookup_channel\<close> finds the element for a pair of keys,
  \<open>channels_store\<close> writes it. \<open>d->channels[typeID][nameID]\<close> is \<open>operator[]\<close> of
  \<open>std::unordered_map\<close>, twice: a missing inner table and a missing handle are inserted,
  default-constructed; the result is the element and the table with it. The code holds the
  element by reference (\<open>localHandle\<close>), so assigning its members writes the table.
\<close>

definition lookup_channel ::
  "channel_map \<Rightarrow> StringID \<Rightarrow> StringID \<Rightarrow> CoreInterfaceHandle option" where
  "lookup_channel ch typeID nameID = (case ch typeID of None \<Rightarrow> None | Some m \<Rightarrow> m nameID)"

definition channels_store ::
  "channel_map \<Rightarrow> StringID \<Rightarrow> StringID \<Rightarrow> CoreInterfaceHandle \<Rightarrow> channel_map" where
  "channels_store ch typeID nameID h =
     ch(typeID \<mapsto> (case ch typeID of None \<Rightarrow> Map.empty | Some m \<Rightarrow> m)(nameID \<mapsto> h))"

definition channels_at ::
  "channel_map \<Rightarrow> StringID \<Rightarrow> StringID \<Rightarrow> CoreInterfaceHandle \<times> channel_map" where
  "channels_at ch typeID nameID =
     (let h = (case lookup_channel ch typeID nameID of
                 None \<Rightarrow> CoreInterfaceHandle_default | Some h \<Rightarrow> h)
      in (h, channels_store ch typeID nameID h))"

text \<open>
  Modelled from the spec: \<open>tp_utils::CallbackCollection\<close> and \<open>tpRemoveOne\<close> are declared
  outside this repository. The latest revision of \<open>handle\<close> and \<open>setChannelData\<close> notifies by
  calling the collections \<open>channelListChanged()\<close> and \<open>channelChanged(typeID, nameID, data)\<close>;
  the spec: invoke all listeners in registration order. That is the loop over the listener
  vector which the earlier revisions write out, and the one modelled here, one trace event
  for each listener called. \<open>tpRemoveOne\<close> removes the first occurrence of a value from a
  vector.
\<close>

definition handle ::
  "thread_id \<Rightarrow> StringID \<Rightarrow> StringID \<Rightarrow> CoreInterface
     \<Rightarrow> error + (CoreInterfaceHandle \<times> CoreInterface)" where
  "handle caller typeID nameID d =
     (if \<not> checkThread d caller then Inl AssertionFailed
      else if \<not> StringID_isValid typeID \<or> \<not> StringID_isValid nameID
      then Inr (CoreInterfaceHandle_default, d)
      else
        let (localHandle, ch) = channels_at (channels d) typeID nameID
        in if m_payload localHandle = None
           then
             let localHandle' = \<lparr>m_payload = Some (length (payloads d)),
                                 m_typeID = typeID, m_nameID = nameID\<rparr>
             in Inr (localHandle',
                  d\<lparr>channels := channels_store ch typeID nameID localHandle',
                    payloads := payloads d @ [CoreInterfacePayloadPrivate_new],
                    trace := trace d @ map ChannelListChangedCall (channelListChangedCallbacks d)\<rparr>)
           else Inr (localHandle, d\<lparr>channels := ch\<rparr>))"

definition loadState ::
  "json \<Rightarrow> thread_id \<Rightarrow> CoreInterface \<Rightarrow> error + (CoreInterfaceHandle \<times> CoreInterface)" where
  "loadState j caller coreInterface =
     handle caller (StringID (TPJSONString j ''typeID'')) (StringID (TPJSONString j ''nameID''))
       coreInterface"

definition setChannelData ::
  "thread_id \<Rightarrow> CoreInterfaceHandle \<Rightarrow> data_ptr \<Rightarrow> CoreInterface \<Rightarrow> error + CoreInterface" where
  "setChannelData caller h dat d =
     (if \<not> checkThread d caller then Inl AssertionFailed
      else case m_payload h of
        None \<Rightarrow> Inr (d\<lparr>trace := trace d @ delete_data dat\<rparr>)
      | Some p \<Rightarrow>
          if \<not> p < length (payloads d) then Inl InvalidPointer
          else Inr (d\<lparr>payloads := (payloads d)[p := (payloads d ! p)\<lparr>data := dat\<rparr>],
                      trace := trace d @ delete_data (data (payloads d ! p))
                         @ map (\<lambda>c. ChannelChangedCall c (m_typeID h) (m_nameID h) dat)
                             (channelChangeCallbacks d)\<rparr>))"

definition registerListChanged :: "thread_id \<Rightarrow> callback \<Rightarrow> CoreInterface \<Rightarrow> error + CoreInterface" where
  "registerListChanged caller c d =
     (if \<not> checkThread d caller then Inl AssertionFailed
      else Inr (d\<lparr>channelListChangedCallbacks := channelListChangedCallbacks d @ [c]\<rparr>))"

definition unregisterListChanged :: "thread_id \<Rightarrow> callback \<Rightarrow> CoreInterface \<Rightarrow> error + CoreInterface" where
  "unregisterListChanged caller c d =
     (if \<not> checkThread d caller then Inl AssertionFailed
      else Inr (d\<lparr>channelListChangedCallbacks := remove1 c (channelListChangedCallbacks d)\<rparr>))"

definition registerChannelChanged :: "thread_id \<Rightarrow> callback \<Rightarrow> CoreInterface \<Rightarrow> error + CoreInterface" where
  "registerChannelChanged caller c d =
     (if \<not> checkThread d caller then Inl AssertionFailed
      else Inr (d\<lparr>channelChangeCallbacks := channelChangeCallbacks d @ [c]\<rparr>))"

definition unregisterChannelChanged :: "thread_id \<Rightarrow> callback \<Rightarrow> CoreInterface \<Rightarrow> error + CoreInterface" where
  "unregisterChannelChanged caller c d =
     (if \<not> checkThread d caller then Inl AssertionFailed
      else Inr (d\<lparr>channelChangeCallbacks := remove1 c (channelChangeCallbacks d)\<rparr>))"

text \<open>\<open>d->signalCallbacks[typeID]\<close>: a missing vector is inserted, empty.\<close>

definition signalCallbacks_at :: "(StringID \<rightharpoonup> callback list) \<Rightarrow> StringID \<Rightarrow> callback list" where
  "signalCallbacks_at m typeID = (case m typeID of None \<Rightarrow> [] | Some cs \<Rightarrow> cs)"

definition registerSignal ::
  "thread_id \<Rightarrow> callback \<Rightarrow> StringID \<Rightarrow> CoreInterface \<Rightarrow> error + CoreInterface" where
  "registerSignal caller c typeID d =
     (if \<not> checkThread d caller then Inl AssertionFailed
      else Inr (d\<lparr>signalCallbacks :=
                    (signalCallbacks d)(typeID \<mapsto> signalCallbacks_at (signalCallbacks d) typeID @ [c])\<rparr>))"

definition unregisterSignal ::
  "thread_id \<Rightarrow> callback \<Rightarrow> StringID \<Rightarrow> CoreInterface \<Rightarrow> error + CoreInterface" where
  "unregisterSignal caller c typeID d =
     (if \<not> checkThread d caller then Inl AssertionFailed
      else
        let callbacks = remove1 c (signalCallbacks_at (signalCallbacks d) typeID)
        in if callbacks = []
           then Inr (d\<lparr>signalCallbacks := (signalCallbacks d)(typeID := None)\<rparr>)
           else Inr (d\<lparr>signalCallbacks := (signalCallbacks d)(typeID \<mapsto> callbacks)\<rparr>))"

definition sendSignal ::
  "thread_id \<Rightarrow> StringID \<Rightarrow> data_ptr \<Rightarrow> CoreInterface \<Rightarrow> error + CoreInterface" where
  "sendSignal caller typeID dat d =
     (if \<not> checkThread d caller then Inl AssertionFailed
      else
        let callbacks = signalCallbacks_at (signalCallbacks d) typeID
        in Inr (d\<lparr>signalCallbacks := (signalCallbacks d)(typeID \<mapsto> callbacks),
                  trace := trace d @ map (\<lambda>c. SignalCall c typeID dat) callbacks\<rparr>))"

subsection \<open>Programs over the public interface\<close>

text \<open>
  A client of the registry is a sequence of calls of its public functions, each made from
  some thread. A call that fails the thread assertion or reads a foreign pointer ends the
  run.
\<close>

datatype command =
    Handle thread_id StringID StringID
  | LoadState json thread_id
  | SetChannelData thread_id CoreInterfaceHandle data_ptr
  | SendSignal thread_id StringID data_ptr
  | RegisterListChanged thread_id callback
  | UnregisterListChanged thread_id callback
  | RegisterChannelChanged thread_id callback
  | UnregisterChannelChanged thread_id callback
  | RegisterSignal thread_id callback StringID
  | UnregisterSignal thread_id callback StringID

fun exec :: "command \<Rightarrow> CoreInterface \<Rightarrow> error + CoreInterface" where
  "exec (Handle caller t n) d = map_sum id snd (handle caller t n d)"
| "exec (LoadState j caller) d = map_sum id snd (loadState j caller d)"
| "exec (SetChannelData caller h dat) d = setChannelData caller h dat d"
| "exec (SendSignal caller t dat) d = sendSignal caller t dat d"
| "exec (RegisterListChanged caller c) d = registerListChanged caller c d"
| "exec (UnregisterListChanged caller c) d = unregisterListChanged caller c d"
| "exec (RegisterChannelChanged caller c) d = registerChannelChanged caller c d"
| "exec (UnregisterChannelChanged caller c) d = unregisterChannelChanged caller c d"
| "exec (RegisterSignal caller c t) d = registerSignal caller c t d"
| "exec (UnregisterSignal caller c t) d = unregisterSignal caller c t d"

fun run :: "command list \<Rightarrow> CoreInterface \<Rightarrow> error + CoreInterface" where
  "run [] d = Inr d"
| "run (c # cs) d = (case exec c d of Inl e \<Rightarrow> Inl e | Inr d' \<Rightarrow> run cs d')"

subsection \<open>Notions used to state the properties\<close>

text \<open>
  A Slot exists for a pair of keys when the table has a handle for the pair and the handle
  points to a payload object: the test \<open>!localHandle.m_payload\<close> of \<open>handle\<close>, negated.
\<close>

definition has_slot :: "CoreInterface \<Rightarrow> StringID \<Rightarrow> StringID \<Rightarrow> bool" where
  "has_slot d t n =
     (case lookup_channel (channels d) t n of None \<Rightarrow> False | Some h \<Rightarrow> m_payload h \<noteq> None)"

text \<open>
  A handle references a real Slot of a registry when it points to a payload object of the
  registry and is the registry's own handle for the keys it carries.
\<close>

definition references_slot :: "CoreInterfaceHandle \<Rightarrow> CoreInterface \<Rightarrow> bool" where
  "references_slot h d =
     (case m_payload h of
        None \<Rightarrow> False
      | Some p \<Rightarrow> p < length (payloads d)
                  \<and> lookup_channel (channels d) (m_typeID h) (m_nameID h) = Some h)"

text \<open>
  The invariant of the channel table: every handle in it carries the keys it is stored
  under, the keys are valid, and it points to a payload object of the registry.
\<close>

definition wf_channels :: "CoreInterface \<Rightarrow> bool" where
  "wf_channels d \<longleftrightarrow>
     (\<forall>t n h. lookup_channel (channels d) t n = Some h \<longrightarrow>
        m_typeID h = t \<and> m_nameID h = n \<and> StringID_isValid t \<and> StringID_isValid n
        \<and> (\<exists>p. m_payload h = Some p \<and> p < length (payloads d)))"

section \<open>Basic facts\<close>

lemma lookup_channels_store:
  "lookup_channel (channels_store ch t n h) t' n' =
     (if t' = t \<and> n' = n then Some h else lookup_channel ch t' n')"
  by (auto simp: lookup_channel_def channels_store_def split: option.splits)

lemma channels_store_same:
  "lookup_channel ch t n = Some h \<Longrightarrow> channels_store ch t n h = ch"
  by (auto simp: lookup_channel_def channels_store_def map_upd_triv split: option.splits)

lemma channels_store_twice:
  "channels_store (channels_store ch t n h) t n h' = channels_store ch t n h'"
  by (auto simp: channels_store_def split: option.splits)

lemma channels_at_existing:
  "lookup_channel ch t n = Some h \<Longrightarrow> channels_at ch t n = (h, ch)"
  by (simp add: channels_at_def channels_store_same)

lemma lookup_channel_empty: "lookup_channel Map.empty t n = None"
  by (simp add: lookup_channel_def)

lemma handle_existing:
  assumes "checkThread d c" "StringID_isValid t" "StringID_isValid n"
    and "lookup_channel (channels d) t n = Some h" "m_payload h \<noteq> None"
  shows "handle c t n d = Inr (h, d)"
  using assms by (auto simp: handle_def channels_at_existing)

lemma handle_create:
  assumes "checkThread d c" "StringID_isValid t" "StringID_isValid n"
    and "\<not> has_slot d t n"
  shows "handle c t n d =
           Inr (\<lparr>m_payload = Some (length (payloads d)), m_typeID = t, m_nameID = n\<rparr>,
                d\<lparr>channels := channels_store (channels d) t n
                      \<lparr>m_payload = Some (length (payloads d)), m_typeID = t, m_nameID = n\<rparr>,
                  payloads := payloads d @ [CoreInterfacePayloadPrivate_new],
                  trace := trace d @ map ChannelListChangedCall (channelListChangedCallbacks d)\<rparr>)"
  using assms
  by (auto simp: handle_def has_slot_def channels_at_def Let_def channels_store_twice
        CoreInterfaceHandle_default_def split: option.splits)

lemma handle_cases:
  assumes "handle c t n d = Inr (h, d')"
  obtains (invalid) "checkThread d c" "\<not> StringID_isValid t \<or> \<not> StringID_isValid n"
            "h = CoreInterfaceHandle_default" "d' = d"
  | (existing) "checkThread d c" "StringID_isValid t" "StringID_isValid n"
            "lookup_channel (channels d) t n = Some h" "m_payload h \<noteq> None" "d' = d"
  | (created) "checkThread d c" "StringID_isValid t" "StringID_isValid n" "\<not> has_slot d t n"
            "h = \<lparr>m_payload = Some (length (payloads d)), m_typeID = t, m_nameID = n\<rparr>"
            "d' = d\<lparr>channels := channels_store (channels d) t n h,
                  payloads := payloads d @ [CoreInterfacePayloadPrivate_new],
                  trace := trace d @ map ChannelListChangedCall (channelListChangedCallbacks d)\<rparr>"
proof -
  have ct: "checkThread d c" using assms by (auto simp: handle_def split: if_splits)
  show thesis
  proof (cases "StringID_isValid t \<and> StringID_isValid n")
    case False
    with assms ct show thesis by (intro invalid) (auto simp: handle_def)
  next
    case True
    show thesis
    proof (cases "has_slot d t n")
      case nhs: False
      from handle_create[OF ct _ _ nhs] True assms nhs show thesis
        by (intro created) (auto simp: ct)
    next
      case hs: True
      then obtain h0 where "lookup_channel (channels d) t n = Some h0" "m_payload h0 \<noteq> None"
        by (auto simp: has_slot_def split: option.splits)
      with handle_existing[OF ct _ _ this] True assms show thesis
        by (intro existing) (auto simp: ct)
    qed
  qed
qed

lemma map_sum_snd_Inr:
  "map_sum id snd x = Inr d' \<Longrightarrow> \<exists>h. x = Inr (h, d')"
  by (cases x) auto

lemma exec_handle_like:
  assumes "exec c d = Inr d'"
  obtains (handle) caller t n h where "handle caller t n d = Inr (h, d')"
  | (setChannelData) caller h dat where "c = SetChannelData caller h dat"
      "setChannelData caller h dat d = Inr d'"
  | (other) "channels d' = channels d" "payloads d' = payloads d" "ownerThread d' = ownerThread d"
      "channelListChangedCallbacks d' = channelListChangedCallbacks d
        \<or> (\<exists>caller cb. c = RegisterListChanged caller cb \<or> c = UnregisterListChanged caller cb)"
      "channelChangeCallbacks d' = channelChangeCallbacks d
        \<or> (\<exists>caller cb. c = RegisterChannelChanged caller cb \<or> c = UnregisterChannelChanged caller cb)"
proof (cases c)
  case (Handle caller t n)
  with assms map_sum_snd_Inr[of "handle caller t n d" d'] show thesis
    by (auto intro: handle)
next
  case (LoadState j caller)
  with assms map_sum_snd_Inr[of "loadState j caller d" d'] show thesis
    by (auto simp: loadState_def intro: handle)
next
  case (SetChannelData caller h dat)
  with assms show thesis by (auto intro: setChannelData)
next
  case (SendSignal caller t dat)
  with assms show thesis
    by (intro other) (auto simp: sendSignal_def Let_def split: if_splits)
next
  case (RegisterListChanged caller cb)
  with assms show thesis
    by (intro other) (auto simp: registerListChanged_def split: if_splits)
next
  case (UnregisterListChanged caller cb)
  with assms show thesis
    by (intro other) (auto simp: unregisterListChanged_def split: if_splits)
next
  case (RegisterChannelChanged caller cb)
  with assms show thesis
    by (intro other) (auto simp: registerChannelChanged_def split: if_splits)
next
  case (UnregisterChannelChanged caller cb)
  with assms show thesis
    by (intro other) (auto simp: unregisterChannelChanged_def split: if_splits)
next
  case (RegisterSignal caller cb t)
  with assms show thesis
    by (intro other) (auto simp: registerSignal_def split: if_splits)
next
  case (UnregisterSignal caller cb t)
  with assms show thesis
    by (intro other) (auto simp: unregisterSignal_def Let_def split: if_splits)
qed

lemma setChannelData_frame:
  assumes "setChannelData caller h dat d = Inr d'"
  shows "channels d' = channels d" "ownerThread d' = ownerThread d"
    "length (payloads d') = length (payloads d)"
    "channelListChangedCallbacks d' = channelListChangedCallbacks d"
    "channelChangeCallbacks d' = channelChangeCallbacks d"
    "signalCallbacks d' = signalCallbacks d"
  using assms by (auto simp: setChannelData_def split: if_splits option.splits)

lemma handle_keeps_slot:
  assumes "handle c t' n' d = Inr (h', d')"
    and "lookup_channel (channels d) t n = Some h" "m_payload h \<noteq> None"
  shows "lookup_channel (channels d') t n = Some h"
  using assms(1)
proof (cases rule: handle_cases)
  case created
  with assms(2,3) show ?thesis
    by (auto simp: lookup_channels_store has_slot_def)
qed (use assms in auto)

lemma handle_ownerThread:
  "handle c t n d = Inr (h, d') \<Longrightarrow> ownerThread d' = ownerThread d"
  by (erule handle_cases) auto

lemma handle_payloads_grow:
  "handle c t n d = Inr (h, d') \<Longrightarrow> length (payloads d) \<le> length (payloads d')"
  by (erule handle_cases) auto

lemma exec_keeps_slot:
  assumes "exec c d = Inr d'"
    and "lookup_channel (channels d) t n = Some h" "m_payload h \<noteq> None"
  shows "lookup_channel (channels d') t n = Some h"
  using assms(1)
  by (cases rule: exec_handle_like)
     (use assms(2,3) in \<open>auto dest: handle_keeps_slot setChannelData_frame(1)\<close>)

lemma exec_ownerThread:
  "exec c d = Inr d' \<Longrightarrow> ownerThread d' = ownerThread d"
  by (erule exec_handle_like) (auto dest: handle_ownerThread setChannelData_frame(2))

lemma exec_payloads_grow:
  "exec c d = Inr d' \<Longrightarrow> length (payloads d) \<le> length (payloads d')"
  by (erule exec_handle_like) (auto dest: handle_payloads_grow setChannelData_frame(3))

lemma run_keeps_slot:
  "run cs d = Inr d' \<Longrightarrow> lookup_channel (channels d) t n = Some h \<Longrightarrow> m_payload h \<noteq> None
   \<Longrightarrow> lookup_channel (channels d') t n = Some h"
proof (induction cs arbitrary: d)
  case Nil
  then show ?case by simp
next
  case (Cons c cs)
  then obtain d1 where e: "exec c d = Inr d1" and r: "run cs d1 = Inr d'"
    by (auto split: sum.splits)
  from exec_keeps_slot[OF e Cons.prems(2,3)] Cons.IH[OF r] Cons.prems(3) show ?case by simp
qed

lemma run_ownerThread:
  "run cs d = Inr d' \<Longrightarrow> ownerThread d' = ownerThread d"
  by (induction cs arbitrary: d) (auto split: sum.splits dest: exec_ownerThread)

lemma run_payloads_grow:
  "run cs d = Inr d' \<Longrightarrow> length (payloads d) \<le> length (payloads d')"
  by (induction cs arbitrary: d) (force split: sum.splits dest: exec_payloads_grow)+

lemma new_has_no_slot: "\<not> has_slot (CoreInterface_new th) t n"
  by (simp add: has_slot_def CoreInterface_new_def lookup_channel_def)

lemma handle_twice:
  assumes "handle c t n d = Inr (h1, d1)"
  shows "handle c t n d1 = Inr (h1, d1)"
  using assms
proof (cases rule: handle_cases)
  case invalid
  with assms show ?thesis by simp
next
  case existing
  with assms show ?thesis by simp
next
  case created
  then have "lookup_channel (channels d1) t n = Some h1" "m_payload h1 \<noteq> None" "checkThread d1 c"
    by (auto simp: lookup_channels_store checkThread_def)
  with handle_existing[of d1 c t n h1] created(2,3) show ?thesis by simp
qed

lemma handle_after_run:
  assumes "handle c t n d = Inr (h1, d1)" and "run cs d1 = Inr d2"
  shows "handle c t n d2 = Inr (h1, d2)"
proof -
  have own: "checkThread d2 c"
    using assms(1) run_ownerThread[OF assms(2)] handle_ownerThread[OF assms(1)]
    by (auto simp: handle_def checkThread_def split: if_splits)
  show ?thesis
  proof (cases "StringID_isValid t \<and> StringID_isValid n")
    case False
    with assms(1) own show ?thesis
      by (auto simp: handle_def split: if_splits)
  next
    case True
    have "lookup_channel (channels d1) t n = Some h1 \<and> m_payload h1 \<noteq> None"
      using assms(1)
      by (cases rule: handle_cases) (use True in \<open>auto simp: lookup_channels_store\<close>)
    then have "lookup_channel (channels d2) t n = Some h1" "m_payload h1 \<noteq> None"
      using run_keeps_slot[OF assms(2)] by blast+
    with handle_existing[OF own] True show ?thesis by simp
  qed
qed

lemma wf_new: "wf_channels (CoreInterface_new th)"
  by (simp add: wf_channels_def CoreInterface_new_def lookup_channel_def)

lemma wf_handle:
  assumes "wf_channels d" and "handle c t n d = Inr (h, d')"
  shows "wf_channels d'"
  using assms(2)
proof (cases rule: handle_cases)
  case created
  show ?thesis
    unfolding wf_channels_def
  proof (intro allI impI)
    fix t' n' h'
    assume l: "lookup_channel (channels d') t' n' = Some h'"
    show "m_typeID h' = t' \<and> m_nameID h' = n' \<and> StringID_isValid t' \<and> StringID_isValid n'
        \<and> (\<exists>p. m_payload h' = Some p \<and> p < length (payloads d'))"
    proof (cases "t' = t \<and> n' = n")
      case True
      with l created show ?thesis by (auto simp: lookup_channels_store)
    next
      case False
      with l created have "lookup_channel (channels d) t' n' = Some h'"
        by (auto simp: lookup_channels_store split: if_splits)
      with assms(1) created(6) show ?thesis
        by (fastforce simp: wf_channels_def)
    qed
  qed
qed (use assms(1) in auto)

lemma wf_exec:
  assumes "wf_channels d" and "exec c d = Inr d'"
  shows "wf_channels d'"
  using assms(2)
proof (cases rule: exec_handle_like)
  case (handle caller t n h)
  then show ?thesis using wf_handle[OF assms(1)] by blast
next
  case (setChannelData caller h dat)
  from setChannelData_frame(1,3)[OF this(2)] assms(1) show ?thesis
    by (simp add: wf_channels_def)
next
  case other
  with assms(1) show ?thesis by (simp add: wf_channels_def)
qed

lemma wf_run: "wf_channels d \<Longrightarrow> run cs d = Inr d' \<Longrightarrow> wf_channels d'"
  by (induction cs arbitrary: d) (auto split: sum.splits dest: wf_exec)

lemma handle_result:
  assumes "wf_channels d" and "handle c t n d = Inr (h, d')"
  shows "(h = CoreInterfaceHandle_default \<and> d' = d)
       \<or> (StringID_isValid (m_typeID h) \<and> StringID_isValid (m_nameID h)
          \<and> lookup_channel (channels d') (m_typeID h) (m_nameID h) = Some h
          \<and> (\<exists>p. m_payload h = Some p \<and> p < length (payloads d')))"
  using assms(2)
proof (cases rule: handle_cases)
  case existing
  with assms(1) show ?thesis by (fastforce simp: wf_channels_def)
next
  case created
  then show ?thesis by (simp add: lookup_channels_store)
qed simp

lemma references_slot_run:
  assumes "references_slot h d" and "run cs d = Inr d'"
  shows "references_slot h d'"
proof -
  from assms(1) obtain p where p: "m_payload h = Some p" "p < length (payloads d)"
    and l: "lookup_channel (channels d) (m_typeID h) (m_nameID h) = Some h"
    by (auto simp: references_slot_def split: option.splits)
  from run_keeps_slot[OF assms(2) l] run_payloads_grow[OF assms(2)] p show ?thesis
    by (simp add: references_slot_def)
qed

lemma default_not_valid:
  "\<not> isValid CoreInterfaceHandle_default" "m_payload CoreInterfaceHandle_default = None"
  "\<not> references_slot CoreInterfaceHandle_default d"
  by (simp_all add: isValid_def CoreInterfaceHandle_default_def StringID_default_def
        StringID_isValid_def references_slot_def)

lemma handle_valid_iff:
  assumes "wf_channels d" and "handle c t n d = Inr (h, d1)"
  shows "(isValid h \<longleftrightarrow> references_slot h d1) \<and> (references_slot h d1 \<longleftrightarrow> m_payload h \<noteq> None)"
  using handle_result[OF assms] default_not_valid
  by (auto simp: isValid_def references_slot_def)

lemma handle_keeps_payload:
  assumes "handle c t n d = Inr (h, d')" and "p < length (payloads d)"
  shows "payloads d' ! p = payloads d ! p"
  using assms(1) by (cases rule: handle_cases) (use assms(2) in \<open>auto simp: nth_append\<close>)

lemma setChannelData_keeps_payload:
  assumes "setChannelData c h dat d = Inr d'" and "m_payload h \<noteq> Some p"
  shows "payloads d' ! p = payloads d ! p"
  using assms by (auto simp: setChannelData_def split: if_splits option.splits)

lemma exec_keeps_payload:
  assumes "exec c d = Inr d'" and "p < length (payloads d)"
    and "\<And>caller h dat. c = SetChannelData caller h dat \<Longrightarrow> m_payload h \<noteq> Some p"
  shows "payloads d' ! p = payloads d ! p"
  using assms(1)
proof (cases rule: exec_handle_like)
  case (handle caller t n h)
  then show ?thesis by (rule handle_keeps_payload[OF _ assms(2)])
next
  case (setChannelData caller h dat)
  from setChannelData_keeps_payload[OF this(2) assms(3)[OF this(1)]] show ?thesis .
next
  case other
  then show ?thesis by simp
qed

lemma run_keeps_payload:
  assumes "run cs d = Inr d'" and "p < length (payloads d)"
    and "\<And>caller h dat. SetChannelData caller h dat \<in> set cs \<Longrightarrow> m_payload h \<noteq> Some p"
  shows "payloads d' ! p = payloads d ! p"
  using assms
proof (induction cs arbitrary: d)
  case Nil
  then show ?case by simp
next
  case (Cons c cs)
  from Cons.prems(1) obtain d1 where e: "exec c d = Inr d1" and r: "run cs d1 = Inr d'"
    by (auto split: sum.splits)
  have 1: "payloads d1 ! p = payloads d ! p"
    by (rule exec_keeps_payload[OF e Cons.prems(2)]) (use Cons.prems(3) in auto)
  have 2: "p < length (payloads d1)"
    using exec_payloads_grow[OF e] Cons.prems(2) by simp
  have 3: "payloads d' ! p = payloads d1 ! p"
    by (rule Cons.IH[OF r 2]) (use Cons.prems(3) in auto)
  from 1 3 show ?case by simp
qed

lemma TPJSONString_saveState:
  "TPJSONString (saveState h) ''typeID'' = toString (m_typeID h)"
  "TPJSONString (saveState h) ''nameID'' = toString (m_nameID h)"
  by (simp_all add: TPJSONString_def saveState_def)

lemma registerSignal_listeners:
  assumes "checkThread d c"
  shows "\<exists>d'. registerSignal c cb t d = Inr d'
    \<and> (\<forall>t'. signalCallbacks_at (signalCallbacks d') t'
          = (if t' = t then signalCallbacks_at (signalCallbacks d) t @ [cb]
             else signalCallbacks_at (signalCallbacks d) t'))"
  using assms by (simp add: registerSignal_def signalCallbacks_at_def)

lemma unregisterSignal_listeners:
  assumes "checkThread d c"
  shows "\<exists>d'. unregisterSignal c cb t d = Inr d'
    \<and> (\<forall>t'. signalCallbacks_at (signalCallbacks d') t'
          = (if t' = t then remove1 cb (signalCallbacks_at (signalCallbacks d) t)
             else signalCallbacks_at (signalCallbacks d) t'))"
  using assms by (simp add: unregisterSignal_def signalCallbacks_at_def Let_def)

lemma count_list_map_SignalCall:
  "count_list (map (\<lambda>cb. SignalCall cb t dat) cbs) (SignalCall cb t dat) = count_list cbs cb"
  by (induction cbs) auto

lemma sendSignal_retains_nothing:
  assumes "sendSignal c t dat d = Inr d'"
  shows "channels d' = channels d \<and> payloads d' = payloads d"
  using assms by (auto simp: sendSignal_def Let_def split: if_splits)

section \<open>Channels\<close>

text \<open>
  C1. At most one Slot is created for a pair of valid keys. Let \<open>handle(t, n)\<close> return
  \<open>h1\<close>, and let any sequence of calls of the public interface follow. Then a further
  \<open>handle(t, n)\<close> returns a handle equal to \<open>h1\<close> and leaves the registry as it is: no
  payload object is allocated and no listener is called. The first call itself does nothing
  to the registry when the Slot exists; when it does not, the call allocates exactly one
  payload object and, before it returns, calls every channel-list-changed listener once, in
  registration order. A new registry has no Slot.
\<close>

theorem handle_creates_slot_once:
  assumes "StringID_isValid t" and "StringID_isValid n"
    and "handle c t n d = Inr (h1, d1)"
    and "run cs d1 = Inr d2"
  shows "(\<exists>h2. handle c t n d2 = Inr (h2, d2) \<and> handle_eq h2 h1)
       \<and> (has_slot d t n \<longrightarrow> d1 = d)
       \<and> (\<not> has_slot d t n \<longrightarrow>
            payloads d1 = payloads d @ [CoreInterfacePayloadPrivate_new]
          \<and> m_payload h1 = Some (length (payloads d))
          \<and> trace d1 = trace d @ map ChannelListChangedCall (channelListChangedCallbacks d))
       \<and> \<not> has_slot (CoreInterface_new th) t n"
proof -
  have A: "\<exists>h2. handle c t n d2 = Inr (h2, d2) \<and> handle_eq h2 h1"
    using handle_after_run[OF assms(3,4)] by (simp add: handle_eq_def)
  have B: "has_slot d t n \<longrightarrow> d1 = d"
    using assms(3) by (cases rule: handle_cases) auto
  have C: "\<not> has_slot d t n \<longrightarrow>
            payloads d1 = payloads d @ [CoreInterfacePayloadPrivate_new]
          \<and> m_payload h1 = Some (length (payloads d))
          \<and> trace d1 = trace d @ map ChannelListChangedCall (channelListChangedCallbacks d)"
    using assms(3)
    by (cases rule: handle_cases) (use assms(1,2) in \<open>auto simp: has_slot_def\<close>)
  from A B C new_has_no_slot show ?thesis by blast
qed

theorem handle_creates_slot_once_witness:
  "\<exists>dA h1 d1 d2.
     run [RegisterListChanged 0 5] (CoreInterface_new 0) = Inr dA
   \<and> StringID_isValid (StringID ''Float'') \<and> StringID_isValid (StringID ''Opacity'')
   \<and> handle 0 (StringID ''Float'') (StringID ''Opacity'') dA = Inr (h1, d1)
   \<and> run [SetChannelData 0 h1 (Some 3), Handle 0 (StringID ''Float'') (StringID ''Gamma''),
           Handle 0 (StringID ''Float'') (StringID ''Opacity'')] d1 = Inr d2
   \<and> (\<exists>h2. handle 0 (StringID ''Float'') (StringID ''Opacity'') d2 = Inr (h2, d2) \<and> handle_eq h2 h1)
   \<and> trace d1 = [ChannelListChangedCall 5]
   \<and> length (payloads d1) = 1"
proof -
  let ?t = "StringID ''Float''" and ?n = "StringID ''Opacity''"
  obtain dA where dA: "run [RegisterListChanged 0 5] (CoreInterface_new 0) = Inr dA"
     and dA': "dA = (CoreInterface_new 0)\<lparr>channelListChangedCallbacks := [5]\<rparr>"
    by (simp add: registerListChanged_def checkThread_def CoreInterface_new_def)
  have v: "StringID_isValid ?t" "StringID_isValid ?n" by (simp_all add: StringID_isValid_def)
  have ns: "\<not> has_slot dA ?t ?n"
    by (simp add: dA' has_slot_def CoreInterface_new_def lookup_channel_def)
  have ct: "checkThread dA 0" by (simp add: dA' checkThread_def CoreInterface_new_def)
  from handle_create[OF ct v ns] obtain h1 d1 where
    h: "handle 0 ?t ?n dA = Inr (h1, d1)" and h1: "m_payload h1 = Some 0"
    and tr: "trace d1 = [ChannelListChangedCall 5]" and pl: "length (payloads d1) = 1"
    and ow: "ownerThread d1 = 0"
    by (simp add: dA' CoreInterface_new_def)
  have "\<exists>d2. run [SetChannelData 0 h1 (Some 3), Handle 0 ?t (StringID ''Gamma''),
           Handle 0 ?t ?n] d1 = Inr d2"
    using h1 pl ow
    by (simp add: setChannelData_def handle_def checkThread_def StringID_isValid_def
          channels_at_def Let_def split: prod.splits sum.splits)
  then obtain d2 where r: "run [SetChannelData 0 h1 (Some 3), Handle 0 ?t (StringID ''Gamma''),
           Handle 0 ?t ?n] d1 = Inr d2" by blast
  from handle_creates_slot_once[OF v h r] dA h r tr pl v show ?thesis by blast
qed

text \<open>
  C2. \<open>setChannelData\<close> through a handle that points to a payload object of the registry
  deletes the data the Slot held, if any, stores the new data pointer in the Slot, so that
  \<open>data()\<close> of the handle returns it, and then calls every channel-changed listener once, in
  registration order, with the handle's type key, name key and the new data pointer.
\<close>

theorem setChannelData_valid_handle:
  assumes "checkThread d c" and "m_payload h = Some p" and "p < length (payloads d)"
  shows "\<exists>d'. setChannelData c h dat d = Inr d'
       \<and> trace d' = trace d @ delete_data (data (payloads d ! p))
                   @ map (\<lambda>cb. ChannelChangedCall cb (m_typeID h) (m_nameID h) dat)
                       (channelChangeCallbacks d)
       \<and> handle_data h d' = Inr dat
       \<and> payloads d' = (payloads d)[p := (payloads d ! p)\<lparr>data := dat\<rparr>]
       \<and> channels d' = channels d
       \<and> channelChangeCallbacks d' = channelChangeCallbacks d"
  using assms by (simp add: setChannelData_def handle_data_def)

theorem setChannelData_valid_handle_witness:
  "\<exists>d0 h d1 d2.
      run [RegisterChannelChanged 0 11, RegisterChannelChanged 0 12] (CoreInterface_new 0) = Inr d0
    \<and> handle 0 (StringID ''Float'') (StringID ''Opacity'') d0 = Inr (h, d1)
    \<and> checkThread d1 0 \<and> m_payload h = Some 0 \<and> 0 < length (payloads d1)
    \<and> setChannelData 0 h (Some 5) d1 = Inr d2
    \<and> trace d2 = [ChannelChangedCall 11 (StringID ''Float'') (StringID ''Opacity'') (Some 5),
                    ChannelChangedCall 12 (StringID ''Float'') (StringID ''Opacity'') (Some 5)]
    \<and> handle_data h d2 = Inr (Some 5)
    \<and> (\<exists>d3. setChannelData 0 h (Some 8) d2 = Inr d3
          \<and> trace d3 = trace d2 @
              [DeleteData 5,
               ChannelChangedCall 11 (StringID ''Float'') (StringID ''Opacity'') (Some 8),
               ChannelChangedCall 12 (StringID ''Float'') (StringID ''Opacity'') (Some 8)]
          \<and> handle_data h d3 = Inr (Some 8))"
proof -
  let ?t = "StringID ''Float''" and ?n = "StringID ''Opacity''"
  let ?d0 = "(CoreInterface_new 0)\<lparr>channelChangeCallbacks := [11, 12]\<rparr>"
  have d0: "run [RegisterChannelChanged 0 11, RegisterChannelChanged 0 12] (CoreInterface_new 0)
              = Inr ?d0"
    by (simp add: registerChannelChanged_def checkThread_def CoreInterface_new_def)
  have v: "StringID_isValid ?t" "StringID_isValid ?n" by (simp_all add: StringID_isValid_def)
  have ns: "\<not> has_slot ?d0 ?t ?n"
    by (simp add: has_slot_def CoreInterface_new_def lookup_channel_def)
  have ct: "checkThread ?d0 0" by (simp add: checkThread_def CoreInterface_new_def)
  define h where "h = \<lparr>m_payload = Some 0, m_typeID = ?t, m_nameID = ?n\<rparr>"
  define d1 where "d1 = ?d0\<lparr>channels := channels_store (channels ?d0) ?t ?n h,
      payloads := payloads ?d0 @ [CoreInterfacePayloadPrivate_new],
      trace := trace ?d0 @ map ChannelListChangedCall (channelListChangedCallbacks ?d0)\<rparr>"
  have h: "handle 0 ?t ?n ?d0 = Inr (h, d1)"
    unfolding h_def d1_def using handle_create[OF ct v ns] by (simp add: CoreInterface_new_def)
  have hp: "m_payload h = Some 0" and hk: "m_typeID h = ?t" "m_nameID h = ?n"
    by (simp_all add: h_def)
  have tr: "trace d1 = []" and pl: "payloads d1 = [CoreInterfacePayloadPrivate_new]"
    and ow: "checkThread d1 0" and cb: "channelChangeCallbacks d1 = [11, 12]"
    by (simp_all add: d1_def CoreInterface_new_def checkThread_def)
  have len: "0 < length (payloads d1)" by (simp add: pl)
  from setChannelData_valid_handle[OF ow hp len, of "Some 5"] obtain d2 where
    s1: "setChannelData 0 h (Some 5) d1 = Inr d2"
    and t2: "trace d2 = [ChannelChangedCall 11 ?t ?n (Some 5), ChannelChangedCall 12 ?t ?n (Some 5)]"
    and g2: "handle_data h d2 = Inr (Some 5)"
    and p2: "payloads d2 = [\<lparr>data = Some 5\<rparr>]"
    and c2: "channelChangeCallbacks d2 = [11, 12]"
    by (auto simp: tr pl cb hk delete_data_def CoreInterfacePayloadPrivate_new_def)
  have ow2: "checkThread d2 0"
    using setChannelData_frame(2)[OF s1] ow by (simp add: checkThread_def)
  have len2: "0 < length (payloads d2)" by (simp add: p2)
  from setChannelData_valid_handle[OF ow2 hp len2, of "Some 8"] obtain d3 where
    "setChannelData 0 h (Some 8) d2 = Inr d3"
    "trace d3 = trace d2 @ [DeleteData 5, ChannelChangedCall 11 ?t ?n (Some 8),
        ChannelChangedCall 12 ?t ?n (Some 8)]"
    "handle_data h d3 = Inr (Some 8)"
    by (auto simp: p2 c2 hk delete_data_def)
  with d0 h ow hp len s1 t2 g2 show ?thesis by blast
qed

text \<open>
  C3. Two handles compare equal exactly when their payload pointers are the same, whatever
  keys they carry. So two handles that both point to no payload object compare equal, and
  two handles obtained by separate calls of \<open>handle\<close> with the same keys on the same
  registry, with any calls of the public interface in between, compare equal.
\<close>

theorem handle_eq_slot_identity:
  "(handle_eq h1 h2 \<longleftrightarrow> m_payload h1 = m_payload h2)
   \<and> handle_eq (h1\<lparr>m_typeID := t1, m_nameID := n1\<rparr>) (h2\<lparr>m_typeID := t2, m_nameID := n2\<rparr>)
       = handle_eq h1 h2
   \<and> (m_payload h1 = None \<and> m_payload h2 = None \<longrightarrow> handle_eq h1 h2)
   \<and> (handle c t n d = Inr (ha, da) \<and> run cs da = Inr db \<and> handle c t n db = Inr (hb, dc)
        \<longrightarrow> handle_eq ha hb)"
proof -
  have "handle_eq ha hb"
    if "handle c t n d = Inr (ha, da)" "run cs da = Inr db" "handle c t n db = Inr (hb, dc)"
    using handle_after_run[OF that(1,2)] that(3) by (simp add: handle_eq_def)
  then show ?thesis by (auto simp: handle_eq_def)
qed

theorem handle_eq_slot_identity_witness:
  "handle_eq \<lparr>m_payload = Some 0, m_typeID = StringID ''Float'', m_nameID = StringID ''Opacity''\<rparr>
             \<lparr>m_payload = Some 0, m_typeID = StringID ''Int'', m_nameID = StringID ''Count''\<rparr>
   \<and> handle_eq CoreInterfaceHandle_default
             \<lparr>m_payload = None, m_typeID = StringID ''Int'', m_nameID = StringID ''Count''\<rparr>
   \<and> (\<exists>ha da db hb.
         handle 0 (StringID ''Float'') (StringID ''Opacity'') (CoreInterface_new 0) = Inr (ha, da)
       \<and> run [Handle 0 (StringID ''Float'') (StringID ''Gamma''), SendSignal 0 (StringID ''Save'') None]
            da = Inr db
       \<and> handle 0 (StringID ''Float'') (StringID ''Opacity'') db = Inr (hb, db)
       \<and> handle_eq ha hb \<and> m_payload ha = Some 0)"
proof -
  let ?t = "StringID ''Float''" and ?n = "StringID ''Opacity''"
  let ?cs = "[Handle 0 ?t (StringID ''Gamma''), SendSignal 0 (StringID ''Save'') None]"
  have v: "StringID_isValid ?t" "StringID_isValid ?n" "StringID_isValid (StringID ''Gamma'')"
    by (simp_all add: StringID_isValid_def)
  have ct: "checkThread (CoreInterface_new 0) 0"
    by (simp add: checkThread_def CoreInterface_new_def)
  from handle_create[OF ct v(1,2) new_has_no_slot] obtain ha da where
    a: "handle 0 ?t ?n (CoreInterface_new 0) = Inr (ha, da)" and pa: "m_payload ha = Some 0"
    by (simp add: CoreInterface_new_def)
  have ow: "checkThread da 0"
    using handle_ownerThread[OF a] ct by (simp add: checkThread_def)
  have "\<exists>db. run ?cs da = Inr db"
    using ow
    by (simp add: handle_def sendSignal_def checkThread_def v Let_def
          split: prod.splits sum.splits)
  then obtain db where r: "run ?cs da = Inr db" by blast
  have b: "handle 0 ?t ?n db = Inr (ha, db)" by (rule handle_after_run[OF a r])
  have p1: "m_payload \<lparr>m_payload = Some 0, m_typeID = StringID ''Float'', m_nameID = StringID ''Opacity''\<rparr>
      = m_payload \<lparr>m_payload = Some 0, m_typeID = StringID ''Int'', m_nameID = StringID ''Count''\<rparr>"
    by simp
  have p2: "m_payload CoreInterfaceHandle_default = None \<and>
      m_payload \<lparr>m_payload = None, m_typeID = StringID ''Int'', m_nameID = StringID ''Count''\<rparr> = None"
    by (simp add: CoreInterfaceHandle_default_def)
  have e1: "handle_eq \<lparr>m_payload = Some 0, m_typeID = StringID ''Float'', m_nameID = StringID ''Opacity''\<rparr>
             \<lparr>m_payload = Some 0, m_typeID = StringID ''Int'', m_nameID = StringID ''Count''\<rparr>"
    using handle_eq_slot_identity[of
        "\<lparr>m_payload = Some 0, m_typeID = StringID ''Float'', m_nameID = StringID ''Opacity''\<rparr>"
        "\<lparr>m_payload = Some 0, m_typeID = StringID ''Int'', m_nameID = StringID ''Count''\<rparr>"] p1
    by blast
  have e2: "handle_eq CoreInterfaceHandle_default
             \<lparr>m_payload = None, m_typeID = StringID ''Int'', m_nameID = StringID ''Count''\<rparr>"
    using handle_eq_slot_identity[of CoreInterfaceHandle_default
        "\<lparr>m_payload = None, m_typeID = StringID ''Int'', m_nameID = StringID ''Count''\<rparr>"] p2
    by blast
  have e3: "handle_eq ha ha"
    using handle_eq_slot_identity[of _ _ _ _ _ _ 0 ?t ?n "CoreInterface_new 0" ha da ?cs db ha db] a r b
    by blast
  from e1 e2 e3 a r b pa show ?thesis by blast
qed

text \<open>
  C4. Round trip. \<open>loadState\<close> of the document written by \<open>saveState\<close> for a handle \<open>h\<close> is
  the call \<open>handle(h.typeID(), h.nameID())\<close> on the registry it is given: the same result
  and the same effect. Hence its result compares equal to what that call of \<open>handle\<close>
  returns, made after it or before it, and the second of the two calls changes nothing.
  When \<open>h\<close> carries valid keys that have no Slot in the registry, \<open>loadState\<close> creates the
  Slot and calls the channel-list-changed listeners.
\<close>

theorem loadState_saveState_round_trip:
  "loadState (saveState h) c r = handle c (handle_typeID h) (handle_nameID h) r
   \<and> (loadState (saveState h) c r = Inr (h1, r1)
        \<and> handle c (handle_typeID h) (handle_nameID h) r1 = Inr (h2, r2)
        \<longrightarrow> handle_eq h1 h2 \<and> r2 = r1)
   \<and> (handle c (handle_typeID h) (handle_nameID h) r = Inr (h2, r1)
        \<and> loadState (saveState h) c r1 = Inr (h1, r2)
        \<longrightarrow> handle_eq h1 h2 \<and> r2 = r1)
   \<and> (checkThread r c \<and> isValid h \<and> \<not> has_slot r (handle_typeID h) (handle_nameID h)
        \<longrightarrow> (\<exists>h1 r1. loadState (saveState h) c r = Inr (h1, r1)
               \<and> payloads r1 = payloads r @ [CoreInterfacePayloadPrivate_new]
               \<and> trace r1 = trace r @ map ChannelListChangedCall (channelListChangedCallbacks r)
               \<and> has_slot r1 (handle_typeID h) (handle_nameID h)))"
proof -
  have eq: "loadState (saveState h) c r = handle c (handle_typeID h) (handle_nameID h) r" for r
    by (simp add: loadState_def TPJSONString_saveState handle_typeID_def handle_nameID_def)
  have twice: "handle_eq a b \<and> rb = ra"
    if "handle c (handle_typeID h) (handle_nameID h) r = Inr (a, ra)"
       "handle c (handle_typeID h) (handle_nameID h) ra = Inr (b, rb)" for a b ra rb
    using handle_twice[OF that(1)] that(2) by (simp add: handle_eq_def)
  have fresh: "\<exists>h1 r1. loadState (saveState h) c r = Inr (h1, r1)
               \<and> payloads r1 = payloads r @ [CoreInterfacePayloadPrivate_new]
               \<and> trace r1 = trace r @ map ChannelListChangedCall (channelListChangedCallbacks r)
               \<and> has_slot r1 (handle_typeID h) (handle_nameID h)"
    if "checkThread r c" "isValid h" "\<not> has_slot r (handle_typeID h) (handle_nameID h)"
    using handle_create[OF that(1) _ _ that(3)] that(2)
    by (simp add: eq isValid_def handle_typeID_def handle_nameID_def has_slot_def
          lookup_channels_store)
  have A: "loadState (saveState h) c r = Inr (h1, r1)
        \<and> handle c (handle_typeID h) (handle_nameID h) r1 = Inr (h2, r2)
        \<longrightarrow> handle_eq h1 h2 \<and> r2 = r1"
    using twice[of h1 r1 h2 r2] by (simp add: eq)
  have B: "handle c (handle_typeID h) (handle_nameID h) r = Inr (h2, r1)
        \<and> loadState (saveState h) c r1 = Inr (h1, r2)
        \<longrightarrow> handle_eq h1 h2 \<and> r2 = r1"
    using twice[of h2 r1 h1 r2] by (auto simp: eq handle_eq_def)
  from eq A B fresh show ?thesis by simp
qed

theorem loadState_saveState_round_trip_witness:
  "\<exists>h1 r1. isValid \<lparr>m_payload = Some 3, m_typeID = StringID ''Float'', m_nameID = StringID ''Opacity''\<rparr>
    \<and> checkThread (CoreInterface_new 0\<lparr>channelListChangedCallbacks := [4]\<rparr>) 0
    \<and> saveState \<lparr>m_payload = Some 3, m_typeID = StringID ''Float'', m_nameID = StringID ''Opacity''\<rparr>
         = [''typeID'' \<mapsto> JString ''Float'', ''nameID'' \<mapsto> JString ''Opacity'']
    \<and> loadState [''typeID'' \<mapsto> JString ''Float'', ''nameID'' \<mapsto> JString ''Opacity''] 0
          (CoreInterface_new 0\<lparr>channelListChangedCallbacks := [4]\<rparr>) = Inr (h1, r1)
    \<and> handle 0 (StringID ''Float'') (StringID ''Opacity'') r1 = Inr (h1, r1)
    \<and> handle_eq h1 h1
    \<and> payloads r1 = [CoreInterfacePayloadPrivate_new]
    \<and> trace r1 = [ChannelListChangedCall 4]"
proof -
  let ?h = "\<lparr>m_payload = Some 3, m_typeID = StringID ''Float'', m_nameID = StringID ''Opacity''\<rparr>"
  let ?r = "CoreInterface_new 0\<lparr>channelListChangedCallbacks := [4]\<rparr>"
  have v: "isValid ?h" by (simp add: isValid_def StringID_isValid_def)
  have ct: "checkThread ?r 0" by (simp add: checkThread_def CoreInterface_new_def)
  have ns: "\<not> has_slot ?r (handle_typeID ?h) (handle_nameID ?h)"
    by (simp add: has_slot_def lookup_channel_def CoreInterface_new_def)
  have sv: "saveState ?h = [''typeID'' \<mapsto> JString ''Float'', ''nameID'' \<mapsto> JString ''Opacity'']"
    by (simp add: saveState_def)
  have k: "handle_typeID ?h = StringID ''Float''" "handle_nameID ?h = StringID ''Opacity''"
    by (simp_all add: handle_typeID_def handle_nameID_def)
  note rt = loadState_saveState_round_trip[of ?h 0 ?r]
  have "\<exists>h1 r1. loadState (saveState ?h) 0 ?r = Inr (h1, r1)
               \<and> payloads r1 = payloads ?r @ [CoreInterfacePayloadPrivate_new]
               \<and> trace r1 = trace ?r @ map ChannelListChangedCall (channelListChangedCallbacks ?r)
               \<and> has_slot r1 (handle_typeID ?h) (handle_nameID ?h)"
    using conjunct2[OF conjunct2[OF conjunct2[OF rt]]] v ct ns by (rule_tac mp) auto
  then obtain h1 r1 where
    l: "loadState (saveState ?h) 0 ?r = Inr (h1, r1)"
    and p: "payloads r1 = payloads ?r @ [CoreInterfacePayloadPrivate_new]"
    and t: "trace r1 = trace ?r @ map ChannelListChangedCall (channelListChangedCallbacks ?r)"
    by blast
  from l conjunct1[OF rt] have hd: "handle 0 (handle_typeID ?h) (handle_nameID ?h) ?r = Inr (h1, r1)"
    by simp
  have again: "handle 0 (handle_typeID ?h) (handle_nameID ?h) r1 = Inr (h1, r1)"
    by (rule handle_twice[OF hd])
  have "handle_eq h1 h1"
    using conjunct1[OF conjunct2[OF loadState_saveState_round_trip[of ?h 0 ?r h1 r1 h1 r1]]] l again
    by simp
  with v ct sv l again p t show ?thesis
    unfolding k sv by (simp add: CoreInterface_new_def)
qed

text \<open>
  C5. With an invalid type key or an invalid name key, \<open>handle\<close> returns a handle that is
  not valid and points to no payload object, and the registry is the same afterwards: the
  channel table is unchanged, no Slot is created and no listener is called.
\<close>

theorem handle_invalid_key:
  assumes "checkThread d c" and "\<not> StringID_isValid t \<or> \<not> StringID_isValid n"
  shows "\<exists>h. handle c t n d = Inr (h, d) \<and> \<not> isValid h \<and> m_payload h = None"
  using assms
  by (auto simp: handle_def CoreInterfaceHandle_default_def isValid_def StringID_default_def
        StringID_isValid_def)

theorem handle_invalid_key_witness:
  "checkThread (CoreInterface_new 0) 0
   \<and> \<not> StringID_isValid (StringID [])
   \<and> (\<exists>h. handle 0 (StringID []) (StringID ''Opacity'') (CoreInterface_new 0)
             = Inr (h, CoreInterface_new 0) \<and> \<not> isValid h \<and> m_payload h = None)"
proof -
  have a: "checkThread (CoreInterface_new 0) 0"
    by (simp add: checkThread_def CoreInterface_new_def)
  have b: "\<not> StringID_isValid (StringID []) \<or> \<not> StringID_isValid (StringID ''Opacity'')"
    by (simp add: StringID_isValid_def)
  from handle_invalid_key[OF a b] a show ?thesis by (simp add: StringID_isValid_def)
qed

text \<open>
  C6. \<open>setChannelData\<close> through a handle that points to no payload object deletes the
  offered data and does nothing else: no listener is called and the registry is unchanged;
  the call returns normally.
\<close>

theorem setChannelData_invalid_handle:
  assumes "checkThread d c" and "m_payload h = None"
  shows "setChannelData c h dat d = Inr (d\<lparr>trace := trace d @ delete_data dat\<rparr>)
       \<and> delete_data dat = (case dat of None \<Rightarrow> [] | Some a \<Rightarrow> [DeleteData a])"
  using assms by (simp add: setChannelData_def delete_data_def)

theorem setChannelData_invalid_handle_witness:
  "checkThread (CoreInterface_new 0) 0 \<and> m_payload CoreInterfaceHandle_default = None
   \<and> setChannelData 0 CoreInterfaceHandle_default (Some 7) (CoreInterface_new 0)
       = Inr ((CoreInterface_new 0)\<lparr>trace := [DeleteData 7]\<rparr>)"
proof -
  have a: "checkThread (CoreInterface_new 0) 0"
    by (simp add: checkThread_def CoreInterface_new_def)
  have b: "m_payload CoreInterfaceHandle_default = None"
    by (simp add: CoreInterfaceHandle_default_def)
  from setChannelData_invalid_handle[OF a b, of "Some 7"] a b show ?thesis
    by (simp add: CoreInterface_new_def)
qed

section \<open>Signals\<close>

text \<open>
  C7. \<open>sendSignal(t, data)\<close> calls the listeners registered for \<open>t\<close>, one call for each
  registration, in registration order, each with \<open>t\<close> and the same data pointer, and
  returns after the last one. With no listener registered for \<open>t\<close> nothing is called. The
  channel table, the payload objects and the listener lists, as every later call reads
  them, are the same afterwards.
\<close>

theorem sendSignal_calls_listeners_in_order:
  assumes "checkThread d c"
  shows "\<exists>d'. sendSignal c t dat d = Inr d'
       \<and> trace d' = trace d
            @ map (\<lambda>cb. SignalCall cb t dat) (signalCallbacks_at (signalCallbacks d) t)
       \<and> (\<forall>cb. count_list (drop (length (trace d)) (trace d')) (SignalCall cb t dat)
                 = count_list (signalCallbacks_at (signalCallbacks d) t) cb)
       \<and> (signalCallbacks_at (signalCallbacks d) t = [] \<longrightarrow> trace d' = trace d)
       \<and> channels d' = channels d \<and> payloads d' = payloads d
       \<and> channelChangeCallbacks d' = channelChangeCallbacks d
       \<and> channelListChangedCallbacks d' = channelListChangedCallbacks d
       \<and> ownerThread d' = ownerThread d
       \<and> (\<forall>t'. signalCallbacks_at (signalCallbacks d') t'
                 = signalCallbacks_at (signalCallbacks d) t')
       \<and> (\<exists>d1 d2 d3. registerSignal c l1 t d = Inr d1 \<and> registerSignal c l2 t d1 = Inr d2
             \<and> sendSignal c t dat d2 = Inr d3
             \<and> trace d3 = trace d @ map (\<lambda>cb. SignalCall cb t dat)
                                       (signalCallbacks_at (signalCallbacks d) t @ [l1, l2]))"
proof -
  have reg: "\<exists>d1 d2 d3. registerSignal c l1 t d = Inr d1 \<and> registerSignal c l2 t d1 = Inr d2
             \<and> sendSignal c t dat d2 = Inr d3
             \<and> trace d3 = trace d @ map (\<lambda>cb. SignalCall cb t dat)
                                       (signalCallbacks_at (signalCallbacks d) t @ [l1, l2])"
    using assms
    by (simp add: registerSignal_def sendSignal_def checkThread_def signalCallbacks_at_def Let_def)
  have main: "\<exists>d'. sendSignal c t dat d = Inr d'
       \<and> trace d' = trace d
            @ map (\<lambda>cb. SignalCall cb t dat) (signalCallbacks_at (signalCallbacks d) t)
       \<and> channels d' = channels d \<and> payloads d' = payloads d
       \<and> channelChangeCallbacks d' = channelChangeCallbacks d
       \<and> channelListChangedCallbacks d' = channelListChangedCallbacks d
       \<and> ownerThread d' = ownerThread d
       \<and> (\<forall>t'. signalCallbacks_at (signalCallbacks d') t'
                 = signalCallbacks_at (signalCallbacks d) t')"
    using assms by (simp add: sendSignal_def Let_def signalCallbacks_at_def)
  then obtain d' where d': "sendSignal c t dat d = Inr d'"
     "trace d' = trace d
            @ map (\<lambda>cb. SignalCall cb t dat) (signalCallbacks_at (signalCallbacks d) t)"
     "channels d' = channels d" "payloads d' = payloads d"
     "channelChangeCallbacks d' = channelChangeCallbacks d"
     "channelListChangedCallbacks d' = channelListChangedCallbacks d"
     "ownerThread d' = ownerThread d"
     "\<forall>t'. signalCallbacks_at (signalCallbacks d') t' = signalCallbacks_at (signalCallbacks d) t'"
    by blast
  have cnt: "\<forall>cb. count_list (drop (length (trace d)) (trace d')) (SignalCall cb t dat)
                 = count_list (signalCallbacks_at (signalCallbacks d) t) cb"
    by (simp add: d'(2) count_list_map_SignalCall)
  have emp: "signalCallbacks_at (signalCallbacks d) t = [] \<longrightarrow> trace d' = trace d"
    by (simp add: d'(2))
  from d' cnt emp reg show ?thesis by blast
qed

theorem sendSignal_calls_listeners_in_order_witness:
  "\<exists>d d'. run [RegisterSignal 0 21 (StringID ''Save''), RegisterSignal 0 23 (StringID ''Load''),
              RegisterSignal 0 22 (StringID ''Save'')] (CoreInterface_new 0) = Inr d
     \<and> checkThread d 0
     \<and> sendSignal 0 (StringID ''Save'') (Some 9) d = Inr d'
     \<and> trace d' = [SignalCall 21 (StringID ''Save'') (Some 9),
                    SignalCall 22 (StringID ''Save'') (Some 9)]
     \<and> channels d' = channels d \<and> payloads d' = payloads d"
proof -
  let ?cs = "[RegisterSignal 0 21 (StringID ''Save''), RegisterSignal 0 23 (StringID ''Load''),
              RegisterSignal 0 22 (StringID ''Save'')]"
  let ?d = "CoreInterface_new 0\<lparr>signalCallbacks :=
      [StringID ''Save'' \<mapsto> [21, 22], StringID ''Load'' \<mapsto> [23]]\<rparr>"
  have r: "run ?cs (CoreInterface_new 0) = Inr ?d"
    by (simp add: registerSignal_def checkThread_def signalCallbacks_at_def CoreInterface_new_def
          fun_upd_twist)
  have ct: "checkThread ?d 0" by (simp add: checkThread_def CoreInterface_new_def)
  have "\<exists>d'. sendSignal 0 (StringID ''Save'') (Some 9) ?d = Inr d'
       \<and> trace d' = trace ?d @ map (\<lambda>cb. SignalCall cb (StringID ''Save'') (Some 9))
                          (signalCallbacks_at (signalCallbacks ?d) (StringID ''Save''))
       \<and> channels d' = channels ?d \<and> payloads d' = payloads ?d"
    using sendSignal_calls_listeners_in_order[OF ct, of "StringID ''Save''" "Some 9"]
    by blast
  then obtain d' where "sendSignal 0 (StringID ''Save'') (Some 9) ?d = Inr d'"
    "trace d' = [SignalCall 21 (StringID ''Save'') (Some 9),
                    SignalCall 22 (StringID ''Save'') (Some 9)]"
    "channels d' = channels ?d" "payloads d' = payloads ?d"
    by (auto simp: signalCallbacks_at_def CoreInterface_new_def)
  with r ct show ?thesis by blast
qed

text \<open>
  C8. The header documents that \<open>sendSignal\<close> takes ownership of the data it is passed. The
  code keeps no reference to the data, and it does not delete it either: sending the data
  at address 9 to one listener leaves exactly the listener's call in the trace.
\<close>

theorem sendSignal_does_not_delete_payload:
  "sendSignal 0 (StringID ''Save'') (Some 9)
     (CoreInterface_new 0\<lparr>signalCallbacks := [StringID ''Save'' \<mapsto> [21]]\<rparr>)
   = Inr (CoreInterface_new 0\<lparr>signalCallbacks := [StringID ''Save'' \<mapsto> [21]],
            trace := [SignalCall 21 (StringID ''Save'') (Some 9)]\<rparr>)
   \<and> DeleteData 9 \<notin> set [SignalCall 21 (StringID ''Save'') (Some 9)]"
  by (simp add: sendSignal_def checkThread_def signalCallbacks_at_def CoreInterface_new_def)

section \<open>Validity of handles\<close>

text \<open>
  C9. In a registry reached from a new one by calls of the public interface, let \<open>h\<close> be
  what \<open>handle\<close> returns. Then \<open>h\<close> is valid iff both its keys are valid and it references a
  real Slot; its keys are valid iff it references a real Slot, and that iff its payload
  pointer is not null. The same holds after any further calls, for what \<open>loadState\<close>
  returns, and for the default-constructed handle.
\<close>

theorem isValid_iff_keys_and_slot:
  assumes "run cs (CoreInterface_new th) = Inr d"
      and "handle c t n d = Inr (h, d1)"
  shows "(isValid h \<longleftrightarrow> StringID_isValid (handle_typeID h) \<and> StringID_isValid (handle_nameID h)
                        \<and> references_slot h d1)
       \<and> (StringID_isValid (handle_typeID h) \<and> StringID_isValid (handle_nameID h)
            \<longleftrightarrow> references_slot h d1)
       \<and> (references_slot h d1 \<longleftrightarrow> m_payload h \<noteq> None)
       \<and> (\<forall>cs' d2. run cs' d1 = Inr d2 \<longrightarrow> (isValid h \<longleftrightarrow> references_slot h d2))
       \<and> (\<forall>j hj dj. loadState j c d = Inr (hj, dj) \<longrightarrow>
            (isValid hj \<longleftrightarrow> StringID_isValid (handle_typeID hj)
                            \<and> StringID_isValid (handle_nameID hj) \<and> references_slot hj dj))
       \<and> (isValid CoreInterfaceHandle_default \<longleftrightarrow>
            StringID_isValid (handle_typeID CoreInterfaceHandle_default)
            \<and> StringID_isValid (handle_nameID CoreInterfaceHandle_default)
            \<and> references_slot CoreInterfaceHandle_default d)"
proof -
  have wf: "wf_channels d" by (rule wf_run[OF wf_new assms(1)])
  note v = handle_valid_iff[OF wf assms(2)]
  have wf1: "wf_channels d1" by (rule wf_handle[OF wf assms(2)])
  have later: "isValid h \<longleftrightarrow> references_slot h d2" if "run cs' d1 = Inr d2" for cs' d2
  proof
    assume "isValid h"
    with v have "references_slot h d1" by simp
    then show "references_slot h d2" by (rule references_slot_run[OF _ that])
  next
    assume "references_slot h d2"
    then have "m_payload h \<noteq> None"
      by (auto simp: references_slot_def split: option.splits)
    with v show "isValid h" by simp
  qed
  have ld: "isValid hj \<longleftrightarrow> references_slot hj dj" if "loadState j c d = Inr (hj, dj)" for j hj dj
    using handle_valid_iff[OF wf that[unfolded loadState_def]] by simp
  have k: "isValid x \<longleftrightarrow> StringID_isValid (handle_typeID x) \<and> StringID_isValid (handle_nameID x)"
    for x by (simp add: isValid_def handle_typeID_def handle_nameID_def)
  have A: "isValid h \<longleftrightarrow> StringID_isValid (handle_typeID h) \<and> StringID_isValid (handle_nameID h)
                        \<and> references_slot h d1"
    using v k by blast
  have B: "StringID_isValid (handle_typeID h) \<and> StringID_isValid (handle_nameID h)
            \<longleftrightarrow> references_slot h d1"
    using v k by blast
  have C: "\<forall>j hj dj. loadState j c d = Inr (hj, dj) \<longrightarrow>
            (isValid hj \<longleftrightarrow> StringID_isValid (handle_typeID hj)
                            \<and> StringID_isValid (handle_nameID hj) \<and> references_slot hj dj)"
    using ld k by blast
  have D: "isValid CoreInterfaceHandle_default \<longleftrightarrow>
            StringID_isValid (handle_typeID CoreInterfaceHandle_default)
            \<and> StringID_isValid (handle_nameID CoreInterfaceHandle_default)
            \<and> references_slot CoreInterfaceHandle_default d"
    using default_not_valid(1,3) by simp
  from A B v later C D show ?thesis by blast
qed

theorem isValid_iff_keys_and_slot_witness:
  "\<exists>d h d1.
      run [Handle 0 (StringID ''Float'') (StringID ''Opacity'')] (CoreInterface_new 0) = Inr d
    \<and> handle 0 (StringID ''Float'') (StringID ''Gamma'') d = Inr (h, d1)
    \<and> m_payload h = Some 1 \<and> isValid h \<and> references_slot h d1"
proof -
  let ?t = "StringID ''Float''" and ?n = "StringID ''Opacity''" and ?g = "StringID ''Gamma''"
  let ?h = "\<lparr>m_payload = Some 0, m_typeID = ?t, m_nameID = ?n\<rparr>"
  have v: "StringID_isValid ?t" "StringID_isValid ?n" "StringID_isValid ?g"
    by (simp_all add: StringID_isValid_def)
  have ct: "checkThread (CoreInterface_new 0) 0"
    by (simp add: checkThread_def CoreInterface_new_def)
  define d where "d = (CoreInterface_new 0)\<lparr>channels := channels_store Map.empty ?t ?n ?h,
      payloads := [CoreInterfacePayloadPrivate_new]\<rparr>"
  have r0: "run [Handle 0 ?t ?n] (CoreInterface_new 0) = Inr d"
    using handle_create[OF ct v(1,2) new_has_no_slot]
    by (simp add: d_def CoreInterface_new_def)
  have ctd: "checkThread d 0" by (simp add: d_def checkThread_def CoreInterface_new_def)
  have ns: "\<not> has_slot d ?t ?g"
    by (simp add: d_def has_slot_def lookup_channels_store lookup_channel_empty)
  define h where "h = \<lparr>m_payload = Some 1, m_typeID = ?t, m_nameID = ?g\<rparr>"
  from handle_create[OF ctd v(1,3) ns] obtain d1 where
    hd: "handle 0 ?t ?g d = Inr (h, d1)"
    by (simp add: h_def d_def)
  have iv: "isValid h" by (simp add: h_def isValid_def v)
  have "references_slot h d1"
    using conjunct1[OF isValid_iff_keys_and_slot[OF r0 hd]] iv by blast
  with r0 hd iv show ?thesis by (auto simp: h_def)
qed

text \<open>
  C10. In a registry reached from a new one by calls of the public interface, let \<open>h0\<close> be
  what \<open>handle\<close> returns, and let any calls follow. Then \<open>data()\<close> of \<open>h0\<close> and of every
  handle equal to it returns a value, never reading outside the registry's payload
  objects. For a handle with a null payload pointer it returns \<open>nullptr\<close>. When the call of
  \<open>handle\<close> created the Slot and no \<open>setChannelData\<close> through an equal handle followed, it
  returns \<open>nullptr\<close> too.
\<close>

theorem handle_data_total:
  assumes "run cs (CoreInterface_new th) = Inr d"
      and "handle c t n d = Inr (h0, d1)"
      and "run cs1 d1 = Inr d2"
  shows "(\<forall>h. handle_eq h h0 \<longrightarrow> (\<exists>v. handle_data h d2 = Inr v))
       \<and> (\<forall>h d'. m_payload h = None \<longrightarrow> handle_data h d' = Inr None)
       \<and> (\<not> has_slot d t n
            \<and> (\<forall>caller h' dat. SetChannelData caller h' dat \<in> set cs1 \<longrightarrow> \<not> handle_eq h' h0)
          \<longrightarrow> (\<forall>h. handle_eq h h0 \<longrightarrow> handle_data h d2 = Inr None))"
proof -
  have wf: "wf_channels d" by (rule wf_run[OF wf_new assms(1)])
  have grow: "length (payloads d1) \<le> length (payloads d2)"
    by (rule run_payloads_grow[OF assms(3)])
  have A: "\<exists>v. handle_data h d2 = Inr v" if "handle_eq h h0" for h
    using handle_result[OF wf assms(2)] that grow
    by (auto simp: handle_data_def handle_eq_def CoreInterfaceHandle_default_def)
  have B: "handle_data h d' = Inr None" if "m_payload h = None" for h d'
    using that by (simp add: handle_data_def)
  have C: "handle_data h d2 = Inr None"
    if ns: "\<not> has_slot d t n"
      and nw: "\<forall>caller h' dat. SetChannelData caller h' dat \<in> set cs1 \<longrightarrow> \<not> handle_eq h' h0"
      and eq: "handle_eq h h0" for h
    using assms(2)
  proof (cases rule: handle_cases)
    case invalid
    with eq show ?thesis
      by (simp add: handle_data_def handle_eq_def CoreInterfaceHandle_default_def)
  next
    case existing
    with ns show ?thesis by (simp add: has_slot_def)
  next
    case created
    let ?p = "length (payloads d)"
    have p: "m_payload h = Some ?p" using eq created(5) by (simp add: handle_eq_def)
    have lt: "?p < length (payloads d1)" using created(6) by simp
    have fresh: "payloads d1 ! ?p = CoreInterfacePayloadPrivate_new" using created(6) by simp
    have "payloads d2 ! ?p = payloads d1 ! ?p"
      by (rule run_keeps_payload[OF assms(3) lt]) (use nw created(5) in \<open>auto simp: handle_eq_def\<close>)
    with fresh lt grow p show ?thesis
      by (simp add: handle_data_def CoreInterfacePayloadPrivate_new_def)
  qed
  from A B C show ?thesis by blast
qed

theorem handle_data_total_witness:
  "\<exists>d h0 d1 d2.
      run [Handle 0 (StringID ''Float'') (StringID ''Opacity'')] (CoreInterface_new 0) = Inr d
    \<and> handle 0 (StringID ''Float'') (StringID ''Gamma'') d = Inr (h0, d1)
    \<and> run [SetChannelData 0 \<lparr>m_payload = Some 0, m_typeID = StringID ''Float'',
                               m_nameID = StringID ''Opacity''\<rparr> (Some 4)] d1 = Inr d2
    \<and> \<not> has_slot d (StringID ''Float'') (StringID ''Gamma'')
    \<and> m_payload h0 = Some 1
    \<and> handle_data h0 d2 = Inr None
    \<and> handle_data CoreInterfaceHandle_default d2 = Inr None"
proof -
  let ?t = "StringID ''Float''" and ?n = "StringID ''Opacity''" and ?g = "StringID ''Gamma''"
  let ?h = "\<lparr>m_payload = Some 0, m_typeID = ?t, m_nameID = ?n\<rparr>"
  have v: "StringID_isValid ?t" "StringID_isValid ?n" "StringID_isValid ?g"
    by (simp_all add: StringID_isValid_def)
  have ct: "checkThread (CoreInterface_new 0) 0"
    by (simp add: checkThread_def CoreInterface_new_def)
  define d where "d = (CoreInterface_new 0)\<lparr>channels := channels_store Map.empty ?t ?n ?h,
      payloads := [CoreInterfacePayloadPrivate_new]\<rparr>"
  have r0: "run [Handle 0 ?t ?n] (CoreInterface_new 0) = Inr d"
    using handle_create[OF ct v(1,2) new_has_no_slot]
    by (simp add: d_def CoreInterface_new_def)
  have ctd: "checkThread d 0" by (simp add: d_def checkThread_def CoreInterface_new_def)
  have ns: "\<not> has_slot d ?t ?g"
    by (simp add: d_def has_slot_def lookup_channels_store lookup_channel_empty)
  define h0 where "h0 = \<lparr>m_payload = Some 1, m_typeID = ?t, m_nameID = ?g\<rparr>"
  from handle_create[OF ctd v(1,3) ns] obtain d1 where
    h: "handle 0 ?t ?g d = Inr (h0, d1)"
    by (simp add: h0_def d_def)
  have ow1: "ownerThread d1 = 0" and len1: "length (payloads d1) = 2"
    using handle_ownerThread[OF h] h handle_create[OF ctd v(1,3) ns]
    by (simp_all add: d_def CoreInterface_new_def)
  have "\<exists>d2. run [SetChannelData 0 ?h (Some 4)] d1 = Inr d2"
    by (simp add: setChannelData_def checkThread_def ow1 len1)
  then obtain d2 where r: "run [SetChannelData 0 ?h (Some 4)] d1 = Inr d2" by blast
  have nw: "\<forall>caller h' dat. SetChannelData caller h' dat \<in> set [SetChannelData 0 ?h (Some 4)]
      \<longrightarrow> \<not> handle_eq h' h0"
    by (simp add: handle_eq_def h0_def)
  note T = handle_data_total[OF r0 h r]
  have e: "handle_eq h0 h0" by (simp add: handle_eq_def)
  have 1: "handle_data h0 d2 = Inr None"
    using conjunct2[OF conjunct2[OF T]] ns nw e by blast
  have 2: "handle_data CoreInterfaceHandle_default d2 = Inr None"
    using conjunct1[OF conjunct2[OF T]] by (simp add: CoreInterfaceHandle_default_def)
  from r0 h r ns 1 2 show ?thesis by (auto simp: h0_def)
qed

end
